theory Spec2Isabelle
  imports Main
begin

section \<open>Python strings\<close>

text \<open>
  A Python \<open>str\<close> is modelled as a HOL \<open>string\<close>; a \<open>char\<close> is read as the code point
  of the same number (0 to 255). The characters the program tells apart are the quote, the
  comma, the newline, white space and the ASCII letters of its answer tokens.
\<close>

definition quote_char :: char where
  "quote_char = CHR 0x22"

definition comma_char :: char where
  "comma_char = CHR 0x2C"

definition newline_char :: char where
  "newline_char = CHR 0x0A"

text \<open>\<open>str.isspace\<close> on one character, for the code points below 256.\<close>

definition py_isspace :: "char \<Rightarrow> bool" where
  "py_isspace c =
     (let n = (of_char c :: nat)
      in (9 \<le> n \<and> n \<le> 13) \<or> (28 \<le> n \<and> n \<le> 32) \<or> n = 133 \<or> n = 160)"

text \<open>\<open>str.strip()\<close>: white space removed at both ends.\<close>

definition py_strip :: "string \<Rightarrow> string" where
  "py_strip s = rev (dropWhile py_isspace (rev (dropWhile py_isspace s)))"

text \<open>\<open>str.lower()\<close>, for the code points below 256.\<close>

definition py_lower_char :: "char \<Rightarrow> char" where
  "py_lower_char c =
     (let n = (of_char c :: nat)
      in if (65 \<le> n \<and> n \<le> 90) \<or> (192 \<le> n \<and> n \<le> 222 \<and> n \<noteq> 215)
         then char_of (n + 32) else c)"

definition py_lower :: "string \<Rightarrow> string" where
  "py_lower s = map py_lower_char s"

text \<open>\<open>s.count(c)\<close> for a one-character pattern \<open>c\<close>.\<close>

fun py_count :: "string \<Rightarrow> char \<Rightarrow> int" where
  "py_count [] c = 0"
| "py_count (x # xs) c = (if x = c then 1 else 0) + py_count xs c"

section \<open>\<open>csv_repair_tool.py\<close>: the two line checks\<close>

text \<open>
  The methods of \<open>CSVRepairTool\<close> keep their names, without the leading underscore.
  \<^verbatim>\<open>
  def _has_unbalanced_quotes(self, line):
      quote_count = line.count('"')
      return quote_count % 2 != 0
  \<close>
\<close>

definition has_unbalanced_quotes :: "string \<Rightarrow> bool" where
  "has_unbalanced_quotes line = (let quote_count = py_count line quote_char
                                 in quote_count mod 2 \<noteq> 0)"

text \<open>
  \<^verbatim>\<open>
  def _count_fields_respecting_quotes(self, line):
      inside_quotes = False
      field_count = 1
      for char in line:
          if char == '"':
              inside_quotes = not inside_quotes
          elif char == ',' and not inside_quotes:
              field_count += 1
      return field_count
  \<close>
  The \<open>for\<close> loop is \<open>count_fields_loop\<close>, on the characters still to read and the two
  loop variables.
\<close>

fun count_fields_loop :: "string \<Rightarrow> bool \<Rightarrow> int \<Rightarrow> int" where
  "count_fields_loop [] inside_quotes field_count = field_count"
| "count_fields_loop (c # cs) inside_quotes field_count =
     (if c = quote_char then count_fields_loop cs (\<not> inside_quotes) field_count
      else if c = comma_char \<and> \<not> inside_quotes then count_fields_loop cs inside_quotes (field_count + 1)
      else count_fields_loop cs inside_quotes field_count)"

definition count_fields_respecting_quotes :: "string \<Rightarrow> int" where
  "count_fields_respecting_quotes line = count_fields_loop line False 1"

section \<open>\<open>csv_repair_tool.py\<close>: detection\<close>

text \<open>
  An issue is the tuple \<open>(line_number, line_content, issue_type)\<close>. The source writes the
  third component as text, \<^verbatim>\<open>"Unbalanced quotes"\<close> or
  \<^verbatim>\<open>f"Has {field_count} fields, expected {expected_fields}"\<close>; the model keeps the two
  shapes and the two numbers.
\<close>

datatype diagnosis = UnbalancedQuotes | FieldCountMismatch int int

type_synonym issue = "int \<times> string \<times> diagnosis"

text \<open>
  \<^verbatim>\<open>
  for i, line in enumerate(lines[1:], start=2):
      if not line.strip():
          continue
      if self._has_unbalanced_quotes(line):
          issues.append((i, line.strip(), "Unbalanced quotes"))
          continue
      field_count = self._count_fields_respecting_quotes(line)
      if field_count != expected_fields:
          issues.append((i, line.strip(), f"Has {field_count} fields, expected {expected_fields}"))
  \<close>
  \<open>detect_loop expected_fields i rest\<close> is the loop from line number \<open>i\<close> on; the issues
  come out in the order in which \<open>append\<close> adds them.
\<close>

fun detect_loop :: "int \<Rightarrow> int \<Rightarrow> string list \<Rightarrow> issue list" where
  "detect_loop expected_fields i [] = []"
| "detect_loop expected_fields i (line # rest) =
     (if py_strip line = [] then detect_loop expected_fields (i + 1) rest
      else if has_unbalanced_quotes line
        then (i, py_strip line, UnbalancedQuotes) # detect_loop expected_fields (i + 1) rest
      else (let field_count = count_fields_respecting_quotes line
            in if field_count \<noteq> expected_fields
               then (i, py_strip line, FieldCountMismatch field_count expected_fields)
                    # detect_loop expected_fields (i + 1) rest
               else detect_loop expected_fields (i + 1) rest))"

definition detect_field_mismatches :: "string list \<Rightarrow> issue list" where
  "detect_field_mismatches lines =
     (if length lines < 2 then []
      else (let header = lines ! 0;
                expected_fields = count_fields_respecting_quotes header
            in detect_loop expected_fields 2 (drop 1 lines)))"

section \<open>\<open>user_input.py\<close>: the prompts\<close>

text \<open>
  The user at the terminal is a script of events: each call of \<open>input\<close> (or of
  prompt_toolkit's \<open>prompt\<close>) takes the next one. \<open>Line s\<close> is a submitted line, without
  its newline; \<open>CtrlC\<close> is an interrupt; at the end of the script the call raises
  \<open>EOFError\<close>. Printed text is not part of the model.
\<close>

datatype event = Line string | CtrlC

datatype py_error = KeyboardInterrupt | EOFError | IndexError

text \<open>
  \<^verbatim>\<open>
  def confirm_action(message, default=True):
      response = input(prompt_text).strip().lower()
      if not response:
          return default
      if response in ['y', 'yes']:
          return True
      elif response in ['n', 'no']:
          return False
      else:
          return confirm_action(message, default)
  \<close>
  The parameter \<open>default\<close> is \<open>dflt\<close> here. The interpreter's limit on the depth of the
  recursion is not modelled.
\<close>

fun confirm_action :: "bool \<Rightarrow> event list \<Rightarrow> py_error + (bool \<times> event list)" where
  "confirm_action dflt [] = Inl EOFError"
| "confirm_action dflt (CtrlC # ins) = Inl KeyboardInterrupt"
| "confirm_action dflt (Line s # ins) =
     (let response = py_lower (py_strip s)
      in if response = [] then Inr (dflt, ins)
         else if response \<in> set [''y'', ''yes''] then Inr (True, ins)
         else if response \<in> set [''n'', ''no''] then Inr (False, ins)
         else confirm_action dflt ins)"

text \<open>
  Which editor serves \<open>edit_text_interactive\<close>: the import of prompt_toolkit succeeds, or
  it raises \<open>ImportError\<close> and plain \<open>input\<close> is used.
\<close>

datatype backend = PromptToolkit | PlainInput

text \<open>
  \<^verbatim>\<open>
  try:
      from prompt_toolkit import prompt
      try:
          edited = prompt("", default=text)
          return edited if edited else None
      except KeyboardInterrupt:
          return None
  except ImportError:
      response = input("> ").strip()
      if not response:
          return text
      elif response.lower() in ['cancel', 'c', 'quit', 'q']:
          return None
      else:
          return response
  \<close>
  In the prefilled editor \<open>Line s\<close> is the buffer as the user submits it.
\<close>

fun edit_text_interactive ::
  "backend \<Rightarrow> string \<Rightarrow> event list \<Rightarrow> py_error + (string option \<times> event list)" where
  "edit_text_interactive b text [] = Inl EOFError"
| "edit_text_interactive PromptToolkit text (CtrlC # ins) = Inr (None, ins)"
| "edit_text_interactive PromptToolkit text (Line edited # ins) =
     Inr (if edited \<noteq> [] then Some edited else None, ins)"
| "edit_text_interactive PlainInput text (CtrlC # ins) = Inl KeyboardInterrupt"
| "edit_text_interactive PlainInput text (Line s # ins) =
     (let response = py_strip s
      in if response = [] then Inr (Some text, ins)
         else if py_lower response \<in> set [''cancel'', ''c'', ''quit'', ''q''] then Inr (None, ins)
         else Inr (Some response, ins))"

text \<open>\<open>edit_line_interactive\<close> builds a message from the line number, prints hints and calls
  \<open>edit_text_interactive(line, message)\<close>.\<close>

definition edit_line_interactive ::
  "backend \<Rightarrow> string \<Rightarrow> int \<Rightarrow> event list \<Rightarrow> py_error + (string option \<times> event list)" where
  "edit_line_interactive b line line_number ins = edit_text_interactive b line ins"

section \<open>\<open>csv_repair_tool.py\<close>: the repair session\<close>

text \<open>\<open>xs[i] = v\<close> on a Python list: a negative index counts from the end, an index out of
  range raises \<open>IndexError\<close>.\<close>

definition py_setitem :: "'a list \<Rightarrow> int \<Rightarrow> 'a \<Rightarrow> py_error + 'a list" where
  "py_setitem xs i v =
     (let n = int (length xs); j = (if i < 0 then i + n else i)
      in if 0 \<le> j \<and> j < n then Inr (xs[nat j := v]) else Inl IndexError)"

text \<open>What the session writes to the tool's logger.\<close>

datatype log_entry = Skipping int | Repaired int

text \<open>
  \<^verbatim>\<open>
  for line_num, line_content, issue_desc in issues:
      should_fix = confirm_action(f"Do you want to fix line {line_num}?", default=True)
      if not should_fix:
          self.logger.info(f"Skipping line {line_num}")
          continue
      fixed_line = edit_line_interactive(line_content, line_num)
      if fixed_line is None:
          abort = confirm_action("Cancel entire repair process?", default=False)
          if abort:
              return None
          else:
              continue
      lines[line_num - 1] = fixed_line + '\n'
      self.logger.info(f"Repaired line {line_num}")
  return lines
  \<close>
  The state is the list \<open>lines\<close> (changed in place), the log and the rest of the user's
  script. The result is the returned value (\<open>None\<close>, or the list), then the list as the
  session leaves it, the log and the script left over.
\<close>

fun interactive_repair ::
  "backend \<Rightarrow> string list \<Rightarrow> issue list \<Rightarrow> log_entry list \<Rightarrow> event list \<Rightarrow>
   py_error + (string list option \<times> string list \<times> log_entry list \<times> event list)" where
  "interactive_repair b lines [] logged ins = Inr (Some lines, lines, logged, ins)"
| "interactive_repair b lines ((line_num, line_content, issue_desc) # issues) logged ins =
     (case confirm_action True ins of
        Inl e \<Rightarrow> Inl e
      | Inr (should_fix, ins1) \<Rightarrow>
          if \<not> should_fix
          then interactive_repair b lines issues (logged @ [Skipping line_num]) ins1
          else (case edit_line_interactive b line_content line_num ins1 of
                  Inl e \<Rightarrow> Inl e
                | Inr (None, ins2) \<Rightarrow>
                    (case confirm_action False ins2 of
                       Inl e \<Rightarrow> Inl e
                     | Inr (abort, ins3) \<Rightarrow>
                         if abort then Inr (None, lines, logged, ins3)
                         else interactive_repair b lines issues logged ins3)
                | Inr (Some fixed_line, ins2) \<Rightarrow>
                    (case py_setitem lines (line_num - 1) (fixed_line @ [newline_char]) of
                       Inl e \<Rightarrow> Inl e
                     | Inr lines' \<Rightarrow>
                         interactive_repair b lines' issues (logged @ [Repaired line_num]) ins2)))"

text \<open>
  \<open>process\<close>, after \<open>lines = f.readlines()\<close>:
  \<^verbatim>\<open>
  if not lines:
      return None
  issues = self._detect_field_mismatches(lines)
  if issues:
      lines = self._interactive_repair(lines, issues)
      if lines is None:
          return None
      self.repairs_made = len(issues)
  return ''.join(lines)
  \<close>
  The tool object is the record of its counter.
\<close>

record tool =
  repairs_made :: int

definition process ::
  "backend \<Rightarrow> tool \<Rightarrow> string list \<Rightarrow> event list \<Rightarrow>
   py_error + (string option \<times> tool \<times> log_entry list \<times> event list)" where
  "process b self lines ins =
     (if lines = [] then Inr (None, self, [], ins)
      else (let issues = detect_field_mismatches lines
            in if issues \<noteq> []
               then (case interactive_repair b lines issues [] ins of
                       Inl e \<Rightarrow> Inl e
                     | Inr (None, _, logged, ins') \<Rightarrow> Inr (None, self, logged, ins')
                     | Inr (Some lines', _, logged, ins') \<Rightarrow>
                         Inr (Some (concat lines'),
                              self\<lparr>repairs_made := int (length issues)\<rparr>, logged, ins'))
               else Inr (Some (concat lines), self, [], ins)))"

section \<open>Notions of the specification\<close>

text \<open>
  The specification sorts what the text-edit prompt gives back into edited text, the
  unchanged original (explicit keep) and a cancellation signal. \<open>outcome_category\<close> reads
  a result of \<open>edit_text_interactive\<close> that way; an exception that leaves the function is a
  category of its own.
\<close>

datatype edit_outcome = EditedText | KeptOriginal | Cancellation | Raised py_error

definition outcome_category ::
  "string \<Rightarrow> py_error + (string option \<times> event list) \<Rightarrow> edit_outcome" where
  "outcome_category text r =
     (case r of
        Inl e \<Rightarrow> Raised e
      | Inr (None, _) \<Rightarrow> Cancellation
      | Inr (Some t, _) \<Rightarrow> if t = text then KeptOriginal else EditedText)"

text \<open>
  The terminator of a line as \<open>readlines\<close> yields it: the newline at its end, or nothing
  (the last line of a file that does not end in a newline).
\<close>

definition line_terminator :: "string \<Rightarrow> string" where
  "line_terminator line =
     (if line \<noteq> [] \<and> last line = newline_char then [newline_char] else [])"

section \<open>Properties of the line checks\<close>

lemma py_count_filter: "py_count s c = int (length (filter (\<lambda>x. x = c) s))"
  by (induction s) auto

lemma py_count_nonneg: "0 \<le> py_count s c"
  by (simp add: py_count_filter)

lemma count_fields_loop_no_quote:
  "quote_char \<notin> set s \<Longrightarrow>
   count_fields_loop s False n = n + py_count s comma_char"
  by (induction s arbitrary: n) auto

lemma count_fields_loop_inside:
  "quote_char \<notin> set s \<Longrightarrow> count_fields_loop (s @ quote_char # t) True n = count_fields_loop t False n"
  by (induction s arbitrary: n) auto

lemma count_fields_loop_append:
  "count_fields_loop (s @ t) b n =
   count_fields_loop t (b \<noteq> has_unbalanced_quotes s) (count_fields_loop s b n)"
proof (induction s arbitrary: b n)
  case Nil
  show ?case by (simp add: has_unbalanced_quotes_def)
next
  case (Cons c s)
  have flip: "has_unbalanced_quotes (quote_char # s) = (\<not> has_unbalanced_quotes s)"
    unfolding has_unbalanced_quotes_def Let_def by (simp add: py_count_filter) presburger
  have keep: "c \<noteq> quote_char \<Longrightarrow> has_unbalanced_quotes (c # s) = has_unbalanced_quotes s"
    unfolding has_unbalanced_quotes_def Let_def by simp
  show ?case
  proof (cases "c = quote_char")
    case True
    then show ?thesis using Cons.IH [of "\<not> b" n] flip by auto
  next
    case False
    then show ?thesis using Cons.IH keep by auto
  qed
qed

lemma count_fields_loop_quoted:
  assumes "\<not> has_unbalanced_quotes pre" and "quote_char \<notin> set mid"
  shows "count_fields_loop (pre @ quote_char # mid @ quote_char # post) False n
         = count_fields_loop post False (count_fields_loop pre False n)"
proof -
  have "count_fields_loop (pre @ quote_char # mid @ quote_char # post) False n
        = count_fields_loop (quote_char # mid @ quote_char # post) False (count_fields_loop pre False n)"
    using assms(1) by (simp add: count_fields_loop_append [of pre])
  also have "\<dots> = count_fields_loop (mid @ quote_char # post) True (count_fields_loop pre False n)"
    by simp
  also have "\<dots> = count_fields_loop post False (count_fields_loop pre False n)"
    using assms(2) by (rule count_fields_loop_inside)
  finally show ?thesis .
qed

text \<open>
  Claim C6. For every line \<open>L\<close>, the empty one too, the quote-balance check answers true
  exactly when the number of quote characters of \<open>L\<close> is odd; the answer depends on the
  quote characters alone, so deleting every other character (the commas among them) leaves
  it as it is.
\<close>

theorem has_unbalanced_quotes_iff_odd:
  "has_unbalanced_quotes L = odd (length (filter (\<lambda>c. c = quote_char) L))
   \<and> has_unbalanced_quotes L = has_unbalanced_quotes (filter (\<lambda>c. c = quote_char) L)
   \<and> \<not> has_unbalanced_quotes []"
proof -
  have parity: "has_unbalanced_quotes s = odd (length (filter (\<lambda>c. c = quote_char) s))" for s
    unfolding has_unbalanced_quotes_def Let_def py_count_filter
    by (simp add: odd_iff_mod_2_eq_one) presburger
  show ?thesis
    by (simp add: parity)
qed

text \<open>
  Claim C8. A line with no quote character has one field more than it has commas; the empty
  line has exactly one field.
\<close>

theorem count_fields_no_quotes:
  "quote_char \<notin> set L \<Longrightarrow>
   count_fields_respecting_quotes L = 1 + int (length (filter (\<lambda>c. c = comma_char) L))
   \<and> count_fields_respecting_quotes [] = 1"
  by (simp add: count_fields_respecting_quotes_def count_fields_loop_no_quote py_count_filter)

theorem count_fields_no_quotes_witness:
  "quote_char \<notin> set ''a,b,c'' \<and> count_fields_respecting_quotes ''a,b,c'' = 3"
proof -
  have h: "quote_char \<notin> set ''a,b,c''" by code_simp
  have "length (filter (\<lambda>c. c = comma_char) ''a,b,c'') = 2" by code_simp
  with count_fields_no_quotes [OF h] h show ?thesis by simp
qed

text \<open>
  Claim C7. A comma strictly inside a quoted section does not add to the field count. The
  section opens at a quote that has an even number of quotes before it and closes at the
  next quote; the count of the line is the count of the line without that comma.
\<close>

theorem quoted_comma_not_counted:
  assumes "even (length (filter (\<lambda>c. c = quote_char) pre))"
    and "quote_char \<notin> set m1" and "quote_char \<notin> set m2"
  shows "count_fields_respecting_quotes (pre @ quote_char # m1 @ comma_char # m2 @ quote_char # post)
         = count_fields_respecting_quotes (pre @ quote_char # m1 @ m2 @ quote_char # post)"
proof -
  have bal: "\<not> has_unbalanced_quotes pre"
    using assms(1) unfolding has_unbalanced_quotes_def Let_def py_count_filter
    by presburger
  have cq: "comma_char \<noteq> quote_char"
    by (simp add: comma_char_def quote_char_def)
  have with_comma: "quote_char \<notin> set (m1 @ comma_char # m2)"
    using assms(2,3) cq by auto
  have without: "quote_char \<notin> set (m1 @ m2)"
    using assms(2,3) by auto
  show ?thesis
    using count_fields_loop_quoted [OF bal with_comma, of post 1]
      count_fields_loop_quoted [OF bal without, of post 1]
    by (simp add: count_fields_respecting_quotes_def)
qed

theorem quoted_comma_not_counted_witness:
  \<open>even (length (filter (\<lambda>c. c = quote_char) ''x,'')) \<and> quote_char \<notin> set ''a'' \<and> quote_char \<notin> set ''b''
   \<and> count_fields_respecting_quotes ''x,"a,b",c'' = count_fields_respecting_quotes ''x,"ab",c''
   \<and> count_fields_respecting_quotes ''x,"a,b",c'' = 3\<close>
proof -
  have h1: "even (length (filter (\<lambda>c. c = quote_char) ''x,''))" by code_simp
  have h2: "quote_char \<notin> set ''a''" by code_simp
  have h3: "quote_char \<notin> set ''b''" by code_simp
  have v: \<open>count_fields_respecting_quotes ''x,"ab",c'' = 3\<close> by code_simp
  from quoted_comma_not_counted [OF h1 h2 h3, of "'',c''"] h1 h2 h3 v
  show ?thesis by (simp add: quote_char_def comma_char_def)
qed

section \<open>Properties of detection\<close>

text \<open>The issues that detection reports for one line number, line by line.\<close>

lemma detect_loop_line_numbers:
  "iss \<in> set (detect_loop e i ls) \<Longrightarrow> i \<le> fst iss \<and> fst iss < i + int (length ls)"
proof (induction ls arbitrary: i)
  case Nil
  then show ?case by simp
next
  case (Cons l ls)
  from Cons.prems have "fst iss = i \<or> iss \<in> set (detect_loop e (i + 1) ls)"
    by (auto simp: Let_def split: if_splits)
  then show ?case
    using Cons.IH [of "i + 1"] by auto
qed

lemma detect_loop_at:
  "k < length ls \<Longrightarrow>
   filter (\<lambda>iss. fst iss = i + int k) (detect_loop e i ls) =
     (if py_strip (ls ! k) = [] then []
      else if has_unbalanced_quotes (ls ! k) then [(i + int k, py_strip (ls ! k), UnbalancedQuotes)]
      else if count_fields_respecting_quotes (ls ! k) \<noteq> e
        then [(i + int k, py_strip (ls ! k),
               FieldCountMismatch (count_fields_respecting_quotes (ls ! k)) e)]
      else [])"
proof (induction ls arbitrary: i k)
  case Nil
  then show ?case by simp
next
  case (Cons l ls)
  show ?case
  proof (cases k)
    case 0
    have later: "filter (\<lambda>iss. fst iss = i) (detect_loop e (i + 1) ls) = []"
    proof -
      have "fst iss \<noteq> i" if "iss \<in> set (detect_loop e (i + 1) ls)" for iss
        using detect_loop_line_numbers [OF that] by simp
      then show ?thesis by (simp add: filter_empty_conv)
    qed
    from 0 later show ?thesis by (simp add: Let_def)
  next
    case (Suc j)
    with Cons.prems have j: "j < length ls" by simp
    have shift: "i + int k = (i + 1) + int j" using Suc by simp
    have head: "i \<noteq> i + 1 + int j" by simp
    show ?thesis
      unfolding shift using Cons.IH [OF j, of "i + 1"] Suc head
      by (simp add: Let_def)
  qed
qed

lemma detect_field_mismatches_at:
  assumes "1 \<le> k" and "k < length lines"
  shows "filter (\<lambda>iss. fst iss = int k + 1) (detect_field_mismatches lines) =
     (if py_strip (lines ! k) = [] then []
      else if has_unbalanced_quotes (lines ! k) then [(int k + 1, py_strip (lines ! k), UnbalancedQuotes)]
      else if count_fields_respecting_quotes (lines ! k) \<noteq> count_fields_respecting_quotes (lines ! 0)
        then [(int k + 1, py_strip (lines ! k),
               FieldCountMismatch (count_fields_respecting_quotes (lines ! k))
                 (count_fields_respecting_quotes (lines ! 0)))]
      else [])"
proof -
  obtain j where k: "k = Suc j" using assms(1) by (cases k) auto
  have j: "j < length (drop 1 lines)" using assms(2) k by simp
  have nth: "drop 1 lines ! j = lines ! k" using assms(2) k by simp
  have num: "int k + 1 = 2 + int j" using k by simp
  have len: "\<not> length lines < 2" using assms by simp
  show ?thesis
    unfolding detect_field_mismatches_def Let_def num
    using detect_loop_at [OF j, of 2 "count_fields_respecting_quotes (lines ! 0)"] len
    by (simp only: nth if_False)
qed

lemma py_strip_empty_all_space:
  assumes "py_strip s = []"
  shows "\<forall>c \<in> set s. py_isspace c"
proof -
  from assms have tail: "\<forall>c \<in> set (dropWhile py_isspace s). py_isspace c"
    by (simp add: py_strip_def dropWhile_eq_Nil_conv)
  have "dropWhile py_isspace s = []"
  proof (rule ccontr)
    assume ne: "dropWhile py_isspace s \<noteq> []"
    then have "\<not> py_isspace (hd (dropWhile py_isspace s))" by (rule hd_dropWhile)
    moreover have "hd (dropWhile py_isspace s) \<in> set (dropWhile py_isspace s)"
      using ne by simp
    ultimately show False using tail by blast
  qed
  then show ?thesis by (simp add: dropWhile_eq_Nil_conv)
qed

text \<open>
  Claim C5. A data line (index \<open>k \<ge> 1\<close>, line number \<open>k + 1\<close>) that is not blank and has
  an odd number of quote characters gets exactly one issue, with the diagnosis
  \<open>UnbalancedQuotes\<close>; no \<open>FieldCountMismatch\<close> is reported for that line, whatever its
  field count.
\<close>

theorem unbalanced_line_one_issue:
  assumes "1 \<le> k" and "k < length lines"
    and "py_strip (lines ! k) \<noteq> []"
    and "odd (length (filter (\<lambda>c. c = quote_char) (lines ! k)))"
  shows "filter (\<lambda>iss. fst iss = int k + 1) (detect_field_mismatches lines)
         = [(int k + 1, py_strip (lines ! k), UnbalancedQuotes)]"
proof -
  have "has_unbalanced_quotes (lines ! k)"
    using assms(4) unfolding has_unbalanced_quotes_def Let_def py_count_filter
    by presburger
  with assms(3) show ?thesis
    by (simp add: detect_field_mismatches_at [OF assms(1,2)])
qed

theorem unbalanced_line_one_issue_witness:
  \<open>(1::nat) \<le> 1 \<and> 1 < length [''a,b,c\<newline>'', ''x,"a,b\<newline>'']
   \<and> py_strip ''x,"a,b\<newline>'' \<noteq> []
   \<and> odd (length (filter (\<lambda>c. c = quote_char) ''x,"a,b\<newline>''))
   \<and> filter (\<lambda>iss. fst iss = 2) (detect_field_mismatches [''a,b,c\<newline>'', ''x,"a,b\<newline>''])
     = [(2, ''x,"a,b'', UnbalancedQuotes)]\<close>
proof -
  have h3: \<open>py_strip ([''a,b,c\<newline>'', ''x,"a,b\<newline>''] ! 1) \<noteq> []\<close> by code_simp
  have h4: \<open>odd (length (filter (\<lambda>c. c = quote_char) ([''a,b,c\<newline>'', ''x,"a,b\<newline>''] ! 1)))\<close>
    by code_simp
  have v: \<open>py_strip ''x,"a,b\<newline>'' = ''x,"a,b''\<close> by code_simp
  from unbalanced_line_one_issue [of 1 \<open>[''a,b,c\<newline>'', ''x,"a,b\<newline>'']\<close>, OF _ _ h3 h4] h3 h4 v
  show ?thesis by simp
qed

text \<open>
  Claim C10. Only data lines are exempt when blank. A header that is empty or white space
  only still gives the expected field count, which is 1, and every data line that is not
  blank, has balanced quotes and has a field count other than 1 is reported as a
  \<open>FieldCountMismatch\<close> against the expectation 1.
\<close>

theorem blank_header_expected_one:
  assumes "py_strip (lines ! 0) = []"
    and "1 \<le> k" and "k < length lines"
    and "py_strip (lines ! k) \<noteq> []"
    and "\<not> has_unbalanced_quotes (lines ! k)"
    and "count_fields_respecting_quotes (lines ! k) \<noteq> 1"
  shows "count_fields_respecting_quotes (lines ! 0) = 1
         \<and> filter (\<lambda>iss. fst iss = int k + 1) (detect_field_mismatches lines)
           = [(int k + 1, py_strip (lines ! k),
               FieldCountMismatch (count_fields_respecting_quotes (lines ! k)) 1)]"
proof -
  have space: "\<forall>c \<in> set (lines ! 0). py_isspace c"
    using assms(1) by (rule py_strip_empty_all_space)
  have "\<not> py_isspace quote_char" and "\<not> py_isspace comma_char"
    by (simp_all add: py_isspace_def quote_char_def comma_char_def)
  with space have noq: "quote_char \<notin> set (lines ! 0)" and noc: "comma_char \<notin> set (lines ! 0)"
    by auto
  have "filter (\<lambda>c. c = comma_char) (lines ! 0) = []"
    using noc by (auto simp: filter_empty_conv)
  then have expected: "count_fields_respecting_quotes (lines ! 0) = 1"
    using noq by (simp add: count_fields_respecting_quotes_def count_fields_loop_no_quote py_count_filter)
  show ?thesis
    using assms(4,5,6) expected by (simp add: detect_field_mismatches_at [OF assms(2,3)])
qed

theorem blank_header_expected_one_witness:
  "py_strip ''  \<newline>'' = [] \<and> (1::nat) \<le> 1 \<and> 1 < length [''  \<newline>'', ''1,2\<newline>'']
   \<and> py_strip ''1,2\<newline>'' \<noteq> [] \<and> \<not> has_unbalanced_quotes ''1,2\<newline>''
   \<and> count_fields_respecting_quotes ''1,2\<newline>'' \<noteq> 1
   \<and> count_fields_respecting_quotes ''  \<newline>'' = 1
   \<and> filter (\<lambda>iss. fst iss = 2) (detect_field_mismatches [''  \<newline>'', ''1,2\<newline>''])
     = [(2, ''1,2'', FieldCountMismatch 2 1)]"
proof -
  have h1: "py_strip ([''  \<newline>'', ''1,2\<newline>''] ! 0) = []" by code_simp
  have h4: "py_strip ([''  \<newline>'', ''1,2\<newline>''] ! 1) \<noteq> []" by code_simp
  have h5: "\<not> has_unbalanced_quotes ([''  \<newline>'', ''1,2\<newline>''] ! 1)" by code_simp
  have h6: "count_fields_respecting_quotes ([''  \<newline>'', ''1,2\<newline>''] ! 1) \<noteq> 1" by code_simp
  have v: "py_strip ''1,2\<newline>'' = ''1,2''" by code_simp
  have c: "count_fields_respecting_quotes ''1,2\<newline>'' = 2" by code_simp
  from blank_header_expected_one [of "[''  \<newline>'', ''1,2\<newline>'']" 1, OF h1 _ _ h4 h5 h6] h1 h4 h5 h6 v c
  show ?thesis by simp
qed

lemma detect_field_mismatches_line_numbers:
  assumes "iss \<in> set (detect_field_mismatches lines)"
  shows "2 \<le> fst iss \<and> fst iss \<le> int (length lines)"
proof -
  from assms have len: "\<not> length lines < 2"
    by (auto simp: detect_field_mismatches_def split: if_splits)
  with assms have "iss \<in> set (detect_loop (count_fields_respecting_quotes (lines ! 0)) 2 (drop 1 lines))"
    by (simp add: detect_field_mismatches_def Let_def)
  from detect_loop_line_numbers [OF this] len show ?thesis by simp
qed

section \<open>The two editors of the text-edit prompt\<close>

text \<open>
  The two editors do not give the same category of outcome on every input. On Ctrl+C
  the prompt_toolkit editor returns \<open>None\<close> and the plain prompt lets
  \<open>KeyboardInterrupt\<close> leave the function; a submitted \<open>cancel\<close> is edited text in the
  editor and a cancellation at the plain prompt; an empty submission is a cancellation in
  the editor and keeps the original at the plain prompt.
\<close>

theorem edit_backends_differ:
  "outcome_category ''a,b'' (edit_text_interactive PromptToolkit ''a,b'' [CtrlC])
     \<noteq> outcome_category ''a,b'' (edit_text_interactive PlainInput ''a,b'' [CtrlC])
   \<and> outcome_category ''a,b'' (edit_text_interactive PromptToolkit ''a,b'' [Line ''cancel''])
     \<noteq> outcome_category ''a,b'' (edit_text_interactive PlainInput ''a,b'' [Line ''cancel''])
   \<and> outcome_category ''a,b'' (edit_text_interactive PromptToolkit ''a,b'' [Line ''''])
     \<noteq> outcome_category ''a,b'' (edit_text_interactive PlainInput ''a,b'' [Line ''''])"
proof -
  have r1: "edit_text_interactive PromptToolkit ''a,b'' [CtrlC] = Inr (None, [])" by simp
  have p1: "edit_text_interactive PlainInput ''a,b'' [CtrlC] = Inl KeyboardInterrupt" by simp
  have r2: "edit_text_interactive PromptToolkit ''a,b'' [Line ''cancel''] = Inr (Some ''cancel'', [])"
    by simp
  have p2: "edit_text_interactive PlainInput ''a,b'' [Line ''cancel''] = Inr (None, [])"
    by code_simp
  have r3: "edit_text_interactive PromptToolkit ''a,b'' [Line ''''] = Inr (None, [])" by simp
  have p3: "edit_text_interactive PlainInput ''a,b'' [Line ''''] = Inr (Some ''a,b'', [])"
    by code_simp
  show ?thesis
    unfolding r1 p1 r2 p2 r3 p3 by (simp add: outcome_category_def)
qed

text \<open>
  Claim C1, as the code has it. For every prefill text and whatever input follows:
  \<^item> a submitted line that is not empty, has no white space at either end and is not one of
    the cancel tokens \<open>cancel\<close>, \<open>c\<close>, \<open>quit\<close>, \<open>q\<close> in any letter case is returned as the
    edited text by both editors;
  \<^item> both editors raise \<open>EOFError\<close> at the end of the input;
  \<^item> on Ctrl+C the prompt_toolkit editor returns \<open>None\<close> and the plain prompt raises
    \<open>KeyboardInterrupt\<close>;
  \<^item> a submitted line that is a cancel token once stripped and lower-cased is returned as
    text by the prompt_toolkit editor and is a cancellation (\<open>None\<close>) at the plain prompt;
  \<^item> an empty submission is a cancellation (\<open>None\<close>) in the prompt_toolkit editor and
    returns the prefill text at the plain prompt.
\<close>

theorem edit_backends_agree:
  "(s \<noteq> [] \<and> py_strip s = s \<and> py_lower s \<notin> set [''cancel'', ''c'', ''quit'', ''q'']
      \<longrightarrow> edit_text_interactive PromptToolkit text (Line s # ins) = Inr (Some s, ins)
        \<and> edit_text_interactive PlainInput text (Line s # ins) = Inr (Some s, ins))
   \<and> edit_text_interactive PromptToolkit text [] = Inl EOFError
   \<and> edit_text_interactive PlainInput text [] = Inl EOFError
   \<and> edit_text_interactive PromptToolkit text (CtrlC # ins) = Inr (None, ins)
   \<and> edit_text_interactive PlainInput text (CtrlC # ins) = Inl KeyboardInterrupt
   \<and> (py_lower (py_strip t) \<in> set [''cancel'', ''c'', ''quit'', ''q'']
      \<longrightarrow> edit_text_interactive PromptToolkit text (Line t # ins) = Inr (Some t, ins)
        \<and> edit_text_interactive PlainInput text (Line t # ins) = Inr (None, ins))
   \<and> edit_text_interactive PromptToolkit text (Line [] # ins) = Inr (None, ins)
   \<and> edit_text_interactive PlainInput text (Line [] # ins) = Inr (Some text, ins)"
proof -
  have ordinary: "edit_text_interactive PromptToolkit text (Line s # ins) = Inr (Some s, ins)
        \<and> edit_text_interactive PlainInput text (Line s # ins) = Inr (Some s, ins)"
    if "s \<noteq> []" and "py_strip s = s"
      and "py_lower s \<notin> set [''cancel'', ''c'', ''quit'', ''q'']"
    using that by (simp add: Let_def)
  have strip_nil: "py_strip [] = []"
    by (simp add: py_strip_def)
  have token: "edit_text_interactive PromptToolkit text (Line t # ins) = Inr (Some t, ins)
        \<and> edit_text_interactive PlainInput text (Line t # ins) = Inr (None, ins)"
    if tok: "py_lower (py_strip t) \<in> set [''cancel'', ''c'', ''quit'', ''q'']"
  proof -
    from tok have ne: "py_strip t \<noteq> []"
      by (auto simp: py_lower_def)
    with strip_nil have "t \<noteq> []" by auto
    with ne tok show ?thesis by (simp add: Let_def)
  qed
  have empty: "edit_text_interactive PlainInput text (Line [] # ins) = Inr (Some text, ins)"
    by (simp add: strip_nil)
  from ordinary token empty show ?thesis by simp
qed

theorem edit_backends_agree_witness:
  "''1,2'' \<noteq> [] \<and> py_strip ''1,2'' = ''1,2''
   \<and> py_lower ''1,2'' \<notin> set [''cancel'', ''c'', ''quit'', ''q'']
   \<and> edit_text_interactive PromptToolkit ''1'' [Line ''1,2''] = Inr (Some ''1,2'', [])
   \<and> edit_text_interactive PlainInput ''1'' [Line ''1,2''] = Inr (Some ''1,2'', [])
   \<and> py_lower (py_strip '' Cancel '') \<in> set [''cancel'', ''c'', ''quit'', ''q'']
   \<and> edit_text_interactive PromptToolkit ''1'' [Line '' Cancel ''] = Inr (Some '' Cancel '', [])
   \<and> edit_text_interactive PlainInput ''1'' [Line '' Cancel ''] = Inr (None, [])"
proof -
  have h1: "''1,2'' \<noteq> []" by simp
  have h2: "py_strip ''1,2'' = ''1,2''" by code_simp
  have h3: "py_lower ''1,2'' \<notin> set [''cancel'', ''c'', ''quit'', ''q'']" by code_simp
  have h4: "py_lower (py_strip '' Cancel '') \<in> set [''cancel'', ''c'', ''quit'', ''q'']"
    by code_simp
  from edit_backends_agree [of "''1,2''" "''1''" "[]" "'' Cancel ''"] h1 h2 h3 h4
  show ?thesis by blast
qed

section \<open>Properties of the repair session\<close>

lemma py_setitem_length: "py_setitem xs i v = Inr ys \<Longrightarrow> length ys = length xs"
  by (auto simp: py_setitem_def Let_def split: if_splits)

lemma py_setitem_nonneg:
  "0 \<le> i \<Longrightarrow> py_setitem xs i v = Inr ys \<Longrightarrow> nat i < length xs \<and> ys = xs[nat i := v]"
  by (auto simp: py_setitem_def Let_def split: if_splits)

lemma py_setitem_in_range:
  "0 \<le> i \<Longrightarrow> i < int (length xs) \<Longrightarrow> py_setitem xs i v = Inr (xs[nat i := v])"
  by (simp add: py_setitem_def Let_def)

lemma interactive_repair_Cons_cases:
  assumes "interactive_repair b lines ((n, c, d) # issues) logged ins = Inr res"
  obtains
    (skip) ins1 where "interactive_repair b lines issues (logged @ [Skipping n]) ins1 = Inr res"
  | (abort) ins3 where "res = (None, lines, logged, ins3)"
  | (keep_on) ins3 where "interactive_repair b lines issues logged ins3 = Inr res"
  | (repaired) fixed_line ins2 lines1 where
      "py_setitem lines (n - 1) (fixed_line @ [newline_char]) = Inr lines1"
      "interactive_repair b lines1 issues (logged @ [Repaired n]) ins2 = Inr res"
  using assms
  by (auto split: sum.splits prod.splits option.splits if_splits)

lemma interactive_repair_length:
  "interactive_repair b lines issues logged ins = Inr (r, lines', logged', ins') \<Longrightarrow>
   length lines' = length lines"
proof (induction issues arbitrary: lines logged ins)
  case Nil
  then show ?case by simp
next
  case (Cons iss issues)
  obtain n c d where iss: "iss = (n, c, d)" by (cases iss)
  from Cons.prems [unfolded iss] show ?case
  proof (cases rule: interactive_repair_Cons_cases)
    case (repaired fixed_line ins2 lines1)
    then show ?thesis using Cons.IH py_setitem_length by fastforce
  qed (use Cons.IH in auto)
qed

lemma interactive_repair_result:
  "interactive_repair b lines issues logged ins = Inr (r, lines', logged', ins') \<Longrightarrow>
   r = None \<or> r = Some lines'"
proof (induction issues arbitrary: lines logged ins)
  case Nil
  then show ?case by auto
next
  case (Cons iss issues)
  obtain n c d where iss: "iss = (n, c, d)" by (cases iss)
  from Cons.prems [unfolded iss] show ?case
    by (cases rule: interactive_repair_Cons_cases) (use Cons.IH in auto)
qed

lemma interactive_repair_log_grows:
  "interactive_repair b lines issues logged ins = Inr (r, lines', logged', ins') \<Longrightarrow>
   set logged \<subseteq> set logged'"
proof (induction issues arbitrary: lines logged ins)
  case Nil
  then show ?case by simp
next
  case (Cons iss issues)
  obtain n c d where iss: "iss = (n, c, d)" by (cases iss)
  from Cons.prems [unfolded iss] show ?case
  proof (cases rule: interactive_repair_Cons_cases)
    case (skip ins1)
    from Cons.IH [OF this] show ?thesis by simp
  next
    case (abort ins3)
    then show ?thesis by simp
  next
    case (keep_on ins3)
    from Cons.IH [OF this] show ?thesis .
  next
    case (repaired fixed_line ins2 lines1)
    from Cons.IH [OF repaired(2)] show ?thesis by simp
  qed
qed

lemma interactive_repair_frame:
  assumes "\<forall>iss \<in> set issues. 1 \<le> fst iss"
    and "interactive_repair b lines issues logged ins = Inr (r, lines', logged', ins')"
    and "Repaired (int k + 1) \<notin> set logged'"
  shows "lines' ! k = lines ! k"
  using assms
proof (induction issues arbitrary: lines logged ins)
  case Nil
  then show ?case by simp
next
  case (Cons iss issues)
  obtain n c d where iss: "iss = (n, c, d)" by (cases iss)
  have pos: "\<forall>iss \<in> set issues. 1 \<le> fst iss" and n: "1 \<le> n"
    using Cons.prems(1) iss by auto
  from Cons.prems(2) [unfolded iss] show ?case
  proof (cases rule: interactive_repair_Cons_cases)
    case (skip ins1)
    from Cons.IH [OF pos this Cons.prems(3)] show ?thesis .
  next
    case (abort ins3)
    then show ?thesis by simp
  next
    case (keep_on ins3)
    from Cons.IH [OF pos this Cons.prems(3)] show ?thesis .
  next
    case (repaired fixed_line ins2 lines1)
    from interactive_repair_log_grows [OF repaired(2)] have "Repaired n \<in> set logged'" by auto
    with Cons.prems(3) have "n \<noteq> int k + 1" by auto
    with n have idx: "nat (n - 1) \<noteq> k" by linarith
    from n repaired(1) have "lines1 = lines[nat (n - 1) := fixed_line @ [newline_char]]"
      using py_setitem_nonneg [of "n - 1" lines] by simp
    with idx have "lines1 ! k = lines ! k" by simp
    with Cons.IH [OF pos repaired(2) Cons.prems(3)] show ?thesis by simp
  qed
qed

lemma skip_every_issue:
  "interactive_repair b lines issues logged (map (\<lambda>_. Line ''n'') issues @ rest)
   = Inr (Some lines, lines, logged @ map (\<lambda>iss. Skipping (fst iss)) issues, rest)"
proof (induction issues arbitrary: logged)
  case Nil
  show ?case by simp
next
  case (Cons iss issues)
  obtain n c d where iss: "iss = (n, c, d)" by (cases iss)
  have no: "py_lower (py_strip ''n'') = ''n''" by code_simp
  have "confirm_action True (Line ''n'' # map (\<lambda>_. Line ''n'') issues @ rest)
        = Inr (False, map (\<lambda>_. Line ''n'') issues @ rest)"
    by (simp add: no)
  then show ?case
    using Cons.IH [of "logged @ [Skipping n]"] by (simp add: iss)
qed

text \<open>
  Claim C2. When the user agrees to fix the first issue, the editor signals a cancellation
  and the user confirms that the whole repair is to be cancelled, the session returns
  \<open>None\<close> and the list of lines is the one it was given, line for line.
\<close>

theorem abort_first_issue:
  assumes "confirm_action True ins = Inr (True, ins1)"
    and "edit_line_interactive b line_content line_num ins1 = Inr (None, ins2)"
    and "confirm_action False ins2 = Inr (True, ins3)"
  shows "interactive_repair b lines ((line_num, line_content, d) # issues) logged ins
         = Inr (None, lines, logged, ins3)"
  using assms by simp

theorem abort_first_issue_witness:
  "confirm_action True [Line ''y'', Line ''cancel'', Line ''yes''] = Inr (True, [Line ''cancel'', Line ''yes''])
   \<and> edit_line_interactive PlainInput ''1'' 2 [Line ''cancel'', Line ''yes''] = Inr (None, [Line ''yes''])
   \<and> confirm_action False [Line ''yes''] = Inr (True, [])
   \<and> detect_field_mismatches [''a,b\<newline>'', ''1\<newline>'', ''1,2,3\<newline>'']
      = [(2, ''1'', FieldCountMismatch 1 2), (3, ''1,2,3'', FieldCountMismatch 3 2)]
   \<and> interactive_repair PlainInput [''a,b\<newline>'', ''1\<newline>'', ''1,2,3\<newline>'']
        (detect_field_mismatches [''a,b\<newline>'', ''1\<newline>'', ''1,2,3\<newline>'']) []
        [Line ''y'', Line ''cancel'', Line ''yes'']
      = Inr (None, [''a,b\<newline>'', ''1\<newline>'', ''1,2,3\<newline>''], [], [])"
proof -
  have h1: "confirm_action True [Line ''y'', Line ''cancel'', Line ''yes'']
            = Inr (True, [Line ''cancel'', Line ''yes''])"
    by code_simp
  have h2: "edit_line_interactive PlainInput ''1'' 2 [Line ''cancel'', Line ''yes''] = Inr (None, [Line ''yes''])"
    by code_simp
  have h3: "confirm_action False [Line ''yes''] = Inr (True, [])"
    by code_simp
  have d: "detect_field_mismatches [''a,b\<newline>'', ''1\<newline>'', ''1,2,3\<newline>'']
           = [(2, ''1'', FieldCountMismatch 1 2), (3, ''1,2,3'', FieldCountMismatch 3 2)]"
    by code_simp
  from abort_first_issue [OF h1 h2 h3] h1 h2 h3 d
  show ?thesis by simp
qed

text \<open>
  The stored line ends in a newline also where the original line had no terminator: the
  last line \<open>1\<close> of a file with no newline at its end is stored as \<open>1,2\<close> and a newline.
\<close>

theorem fix_adds_newline_to_last_line:
  "interactive_repair PlainInput [''a,b\<newline>'', ''1'']
     (detect_field_mismatches [''a,b\<newline>'', ''1'']) [] [Line ''y'', Line ''1,2'']
   = Inr (Some [''a,b\<newline>'', ''1,2\<newline>''], [''a,b\<newline>'', ''1,2\<newline>''], [Repaired 2], [])
   \<and> ''1,2\<newline>'' \<noteq> ''1,2'' @ line_terminator ''1''"
proof -
  have run: "interactive_repair PlainInput [''a,b\<newline>'', ''1'']
     (detect_field_mismatches [''a,b\<newline>'', ''1'']) [] [Line ''y'', Line ''1,2'']
   = Inr (Some [''a,b\<newline>'', ''1,2\<newline>''], [''a,b\<newline>'', ''1,2\<newline>''], [Repaired 2], [])"
    by code_simp
  have "line_terminator ''1'' = []"
    by (simp add: line_terminator_def newline_char_def)
  with run show ?thesis by simp
qed

text \<open>
  Claim C3, as the code has it. When the user confirms the fix and the editor returns new
  content for a flagged line (its number between 1 and the number of lines), the session
  overwrites that line, and no other, with the new content followed by one newline
  character, logs the repair and goes on with the remaining issues. This is the new content
  followed by the line's original terminator whenever the original line ended in a
  newline.
\<close>

theorem fix_overwrites_line:
  assumes "confirm_action True ins = Inr (True, ins1)"
    and "edit_line_interactive b line_content line_num ins1 = Inr (Some fixed_line, ins2)"
    and "1 \<le> line_num" and "line_num \<le> int (length lines)"
  shows "interactive_repair b lines ((line_num, line_content, d) # issues) logged ins
         = interactive_repair b (lines[nat (line_num - 1) := fixed_line @ [newline_char]]) issues
             (logged @ [Repaired line_num]) ins2
         \<and> (lines[nat (line_num - 1) := fixed_line @ [newline_char]]) ! nat (line_num - 1)
           = fixed_line @ [newline_char]
         \<and> (\<forall>j < length lines. j \<noteq> nat (line_num - 1) \<longrightarrow>
              (lines[nat (line_num - 1) := fixed_line @ [newline_char]]) ! j = lines ! j)
         \<and> (line_terminator (lines ! nat (line_num - 1)) = [newline_char] \<longrightarrow>
              (lines[nat (line_num - 1) := fixed_line @ [newline_char]]) ! nat (line_num - 1)
              = fixed_line @ line_terminator (lines ! nat (line_num - 1)))"
proof -
  have idx: "nat (line_num - 1) < length lines"
    using assms(3,4) by linarith
  have "py_setitem lines (line_num - 1) (fixed_line @ [newline_char])
        = Inr (lines[nat (line_num - 1) := fixed_line @ [newline_char]])"
    using assms(3,4) by (intro py_setitem_in_range) auto
  then have step: "interactive_repair b lines ((line_num, line_content, d) # issues) logged ins
         = interactive_repair b (lines[nat (line_num - 1) := fixed_line @ [newline_char]]) issues
             (logged @ [Repaired line_num]) ins2"
    using assms(1,2) by simp
  from step idx show ?thesis by simp
qed

theorem fix_overwrites_line_witness:
  "confirm_action True [Line ''y'', Line ''1,2''] = Inr (True, [Line ''1,2''])
   \<and> edit_line_interactive PlainInput ''1'' 2 [Line ''1,2''] = Inr (Some ''1,2'', [])
   \<and> (1::int) \<le> 2 \<and> 2 \<le> int (length [''a,b\<newline>'', ''1\<newline>''])
   \<and> line_terminator ''1\<newline>'' = [newline_char]
   \<and> interactive_repair PlainInput [''a,b\<newline>'', ''1\<newline>''] [(2, ''1'', FieldCountMismatch 1 2)] []
        [Line ''y'', Line ''1,2'']
      = Inr (Some [''a,b\<newline>'', ''1,2'' @ line_terminator ''1\<newline>''],
             [''a,b\<newline>'', ''1,2'' @ line_terminator ''1\<newline>''], [Repaired 2], [])"
proof -
  have h1: "confirm_action True [Line ''y'', Line ''1,2''] = Inr (True, [Line ''1,2''])"
    by code_simp
  have h2: "edit_line_interactive PlainInput ''1'' 2 [Line ''1,2''] = Inr (Some ''1,2'', [])"
    by code_simp
  have h3: "(1::int) \<le> 2" by simp
  have h4: "(2::int) \<le> int (length [''a,b\<newline>'', ''1\<newline>''])" by simp
  have t: "line_terminator ''1\<newline>'' = [newline_char]"
    by (simp add: line_terminator_def newline_char_def)
  from fix_overwrites_line [OF h1 h2 h3 h4, of "FieldCountMismatch 1 2" "[]" "[]"] h1 h2 t
  show ?thesis by (simp add: newline_char_def)
qed

text \<open>
  Claim C4. The session neither adds, removes nor reorders lines: the list it leaves (which
  is the list it returns, when it returns one) has the length of the input, every line
  whose number the log does not report as repaired is the input's line at that index, and
  a session that repairs nothing leaves the input as it is. Issue line numbers are at
  least 1, as those of detection are (\<open>detect_field_mismatches_line_numbers\<close>).
\<close>

theorem repair_frame:
  assumes "\<forall>iss \<in> set issues. 1 \<le> fst iss"
    and "interactive_repair b lines issues logged ins = Inr (r, lines', logged', ins')"
  shows "length lines' = length lines
         \<and> (r = None \<or> r = Some lines')
         \<and> (\<forall>k < length lines. Repaired (int k + 1) \<notin> set logged' \<longrightarrow> lines' ! k = lines ! k)
         \<and> ((\<forall>n. Repaired n \<notin> set logged') \<longrightarrow> lines' = lines)"
proof -
  have len: "length lines' = length lines"
    using assms(2) by (rule interactive_repair_length)
  have res: "r = None \<or> r = Some lines'"
    using assms(2) by (rule interactive_repair_result)
  have frame: "lines' ! k = lines ! k" if "Repaired (int k + 1) \<notin> set logged'" for k
    using assms that by (rule interactive_repair_frame)
  have same: "lines' = lines" if "\<forall>n. Repaired n \<notin> set logged'"
    using len frame that by (simp add: list_eq_iff_nth_eq)
  from len res frame same show ?thesis by blast
qed

theorem repair_frame_witness:
  "list_all (\<lambda>iss. 1 \<le> fst iss) (detect_field_mismatches [''a,b\<newline>'', ''1\<newline>'', ''1,2,3\<newline>''])
   \<and> interactive_repair PlainInput [''a,b\<newline>'', ''1\<newline>'', ''1,2,3\<newline>'']
        (detect_field_mismatches [''a,b\<newline>'', ''1\<newline>'', ''1,2,3\<newline>'']) []
        [Line ''n'', Line ''y'', Line ''cancel'', Line ''n'']
      = Inr (Some [''a,b\<newline>'', ''1\<newline>'', ''1,2,3\<newline>''],
             [''a,b\<newline>'', ''1\<newline>'', ''1,2,3\<newline>''], [Skipping 2], [])
   \<and> interactive_repair PlainInput [''a,b\<newline>'', ''1\<newline>'', ''1,2,3\<newline>'']
        (detect_field_mismatches [''a,b\<newline>'', ''1\<newline>'', ''1,2,3\<newline>'']) []
        [Line ''y'', Line ''1,2'', Line ''n'']
      = Inr (Some [''a,b\<newline>'', ''1,2\<newline>'', ''1,2,3\<newline>''],
             [''a,b\<newline>'', ''1,2\<newline>'', ''1,2,3\<newline>''], [Repaired 2, Skipping 3], [])
   \<and> length [''a,b\<newline>'', ''1,2\<newline>'', ''1,2,3\<newline>''] = length [''a,b\<newline>'', ''1\<newline>'', ''1,2,3\<newline>'']"
proof -
  have pos: "\<forall>iss \<in> set (detect_field_mismatches [''a,b\<newline>'', ''1\<newline>'', ''1,2,3\<newline>'']). 1 \<le> fst iss"
    by code_simp
  have skipped: "interactive_repair PlainInput [''a,b\<newline>'', ''1\<newline>'', ''1,2,3\<newline>'']
        (detect_field_mismatches [''a,b\<newline>'', ''1\<newline>'', ''1,2,3\<newline>'']) []
        [Line ''n'', Line ''y'', Line ''cancel'', Line ''n'']
      = Inr (Some [''a,b\<newline>'', ''1\<newline>'', ''1,2,3\<newline>''],
             [''a,b\<newline>'', ''1\<newline>'', ''1,2,3\<newline>''], [Skipping 2], [])"
    by code_simp
  have mixed: "interactive_repair PlainInput [''a,b\<newline>'', ''1\<newline>'', ''1,2,3\<newline>'']
        (detect_field_mismatches [''a,b\<newline>'', ''1\<newline>'', ''1,2,3\<newline>'']) []
        [Line ''y'', Line ''1,2'', Line ''n'']
      = Inr (Some [''a,b\<newline>'', ''1,2\<newline>'', ''1,2,3\<newline>''],
             [''a,b\<newline>'', ''1,2\<newline>'', ''1,2,3\<newline>''], [Repaired 2, Skipping 3], [])"
    by code_simp
  from repair_frame [OF pos skipped] repair_frame [OF pos mixed] pos skipped mixed
  show ?thesis by (simp add: list_all_iff)
qed

text \<open>
  Claim C9. After a run of \<open>process\<close> that detects at least one issue and returns content,
  \<open>repairs_made\<close> is the number of detected issues, whatever the user did with them.
\<close>

theorem repairs_made_counts_issues:
  assumes "detect_field_mismatches lines \<noteq> []"
    and "process b self lines ins = Inr (Some content, self', logged, ins')"
  shows "repairs_made self' = int (length (detect_field_mismatches lines))"
  using assms
  by (auto simp: process_def Let_def split: if_splits sum.splits prod.splits option.splits)

theorem repairs_made_counts_issues_witness:
  "detect_field_mismatches [''a,b\<newline>'', ''1\<newline>'', ''1,2,3\<newline>''] \<noteq> []
   \<and> process PlainInput \<lparr>repairs_made = 0\<rparr> [''a,b\<newline>'', ''1\<newline>'', ''1,2,3\<newline>''] [Line ''n'', Line ''n'']
      = Inr (Some ''a,b\<newline>1\<newline>1,2,3\<newline>'', \<lparr>repairs_made = 2\<rparr>, [Skipping 2, Skipping 3], [])
   \<and> repairs_made \<lparr>repairs_made = 2\<rparr> = int (length (detect_field_mismatches [''a,b\<newline>'', ''1\<newline>'', ''1,2,3\<newline>'']))"
proof -
  have h1: "detect_field_mismatches [''a,b\<newline>'', ''1\<newline>'', ''1,2,3\<newline>''] \<noteq> []"
    by code_simp
  have h2: "process PlainInput \<lparr>repairs_made = 0\<rparr> [''a,b\<newline>'', ''1\<newline>'', ''1,2,3\<newline>''] [Line ''n'', Line ''n'']
      = Inr (Some ''a,b\<newline>1\<newline>1,2,3\<newline>'', \<lparr>repairs_made = 2\<rparr>, [Skipping 2, Skipping 3], [])"
    by code_simp
  from repairs_made_counts_issues [OF h1 h2] h1 h2
  show ?thesis by blast
qed

end
